theory Spec2Isabelle
  imports Main
begin

section \<open>Go library functions used by the program\<close>

text \<open>
  Go strings are byte sequences; they are modelled as \<open>string\<close> (a list of 8-bit
  characters), so non-ASCII text appears as its UTF-8 bytes.
\<close>

text \<open>\<open>strings.Join(elems, sep)\<close>.\<close>

fun strings_Join :: "string list \<Rightarrow> string \<Rightarrow> string" where
  "strings_Join [] sep = []"
| "strings_Join [x] sep = x"
| "strings_Join (x # y # ys) sep = x @ sep @ strings_Join (y # ys) sep"

text \<open>
  \<open>strings.Split(s, sep)\<close> for a separator of one byte (the program only splits on
  \<open>","\<close>): every piece between two separators, the empty ones included; a string
  without separator is returned as the only piece.
\<close>

fun strings_Split :: "string \<Rightarrow> char \<Rightarrow> string list" where
  "strings_Split [] sep = [[]]"
| "strings_Split (c # cs) sep =
     (if c = sep then [] # strings_Split cs sep
      else (case strings_Split cs sep of
              [] \<Rightarrow> [[c]]
            | x # xs \<Rightarrow> (c # x) # xs))"

text \<open>\<open>strings.TrimRight(s, cutset)\<close> for a cutset of ASCII bytes.\<close>

definition strings_TrimRight :: "string \<Rightarrow> string \<Rightarrow> string" where
  "strings_TrimRight s cutset = rev (dropWhile (\<lambda>c. c \<in> set cutset) (rev s))"

text \<open>\<open>strings.HasSuffix\<close> and \<open>strings.TrimSuffix\<close>.\<close>

definition strings_HasSuffix :: "string \<Rightarrow> string \<Rightarrow> bool" where
  "strings_HasSuffix s suffix =
     (length suffix \<le> length s \<and> drop (length s - length suffix) s = suffix)"

definition strings_TrimSuffix :: "string \<Rightarrow> string \<Rightarrow> string" where
  "strings_TrimSuffix s suffix =
     (if strings_HasSuffix s suffix then take (length s - length suffix) s else s)"

text \<open>
  \<open>strings.TrimSpace\<close>: leading and trailing Unicode white space is removed. On the
  UTF-8 bytes these are the six ASCII characters tab, line feed, vertical tab, form feed,
  carriage return and space; U+0085 and U+00A0 (two bytes each); and U+1680,
  U+2000..U+200A, U+2028, U+2029, U+202F, U+205F and U+3000 (three bytes each).
\<close>

definition isSpace1 :: "char \<Rightarrow> bool" where
  "isSpace1 a = (a \<in> {CHR 0x09, CHR 0x0A, CHR 0x0B, CHR 0x0C, CHR 0x0D, CHR 0x20})"

definition isSpace2 :: "char \<Rightarrow> char \<Rightarrow> bool" where
  "isSpace2 a b = (a = CHR 0xC2 \<and> (b = CHR 0x85 \<or> b = CHR 0xA0))"

definition isSpace3 :: "char \<Rightarrow> char \<Rightarrow> char \<Rightarrow> bool" where
  "isSpace3 a b c =
     ((a = CHR 0xE1 \<and> b = CHR 0x9A \<and> c = CHR 0x80) \<or>
      (a = CHR 0xE2 \<and> b = CHR 0x80 \<and>
         (c \<in> {CHR 0x80, CHR 0x81, CHR 0x82, CHR 0x83, CHR 0x84, CHR 0x85, CHR 0x86,
               CHR 0x87, CHR 0x88, CHR 0x89, CHR 0x8A, CHR 0xA8, CHR 0xA9, CHR 0xAF})) \<or>
      (a = CHR 0xE2 \<and> b = CHR 0x81 \<and> c = CHR 0x9F) \<or>
      (a = CHR 0xE3 \<and> b = CHR 0x80 \<and> c = CHR 0x80))"

fun trimLeftSpace :: "string \<Rightarrow> string" where
  "trimLeftSpace (a # b # c # s) =
     (if isSpace1 a then trimLeftSpace (b # c # s)
      else if isSpace2 a b then trimLeftSpace (c # s)
      else if isSpace3 a b c then trimLeftSpace s
      else a # b # c # s)"
| "trimLeftSpace [a, b] =
     (if isSpace1 a then trimLeftSpace [b]
      else if isSpace2 a b then []
      else [a, b])"
| "trimLeftSpace [a] = (if isSpace1 a then [] else [a])"
| "trimLeftSpace [] = []"

text \<open>The same from the end: the argument is the reversed string.\<close>

fun trimLeftSpaceRev :: "string \<Rightarrow> string" where
  "trimLeftSpaceRev (c # b # a # s) =
     (if isSpace1 c then trimLeftSpaceRev (b # a # s)
      else if isSpace2 b c then trimLeftSpaceRev (a # s)
      else if isSpace3 a b c then trimLeftSpaceRev s
      else c # b # a # s)"
| "trimLeftSpaceRev [c, b] =
     (if isSpace1 c then trimLeftSpaceRev [b]
      else if isSpace2 b c then []
      else [c, b])"
| "trimLeftSpaceRev [c] = (if isSpace1 c then [] else [c])"
| "trimLeftSpaceRev [] = []"

definition strings_TrimSpace :: "string \<Rightarrow> string" where
  "strings_TrimSpace s = rev (trimLeftSpaceRev (rev (trimLeftSpace s)))"

text \<open>
  \<open>filepath.Base(path)\<close> on a system whose separator is \<open>/\<close>: trailing separators are
  removed, then everything up to the last separator; the empty path gives \<open>"."\<close>, a path
  of separators only gives \<open>"/"\<close>.
\<close>

definition filepath_Base :: "string \<Rightarrow> string" where
  "filepath_Base path =
     (if path = [] then ''.''
      else let p = rev (dropWhile (\<lambda>c. c = CHR ''/'') (rev path));
               e = rev (takeWhile (\<lambda>c. c \<noteq> CHR ''/'') (rev p))
           in if e = [] then ''/'' else e)"

section \<open>The operating system and the program state\<close>

text \<open>
  A Go \<open>error\<close> is identified with its message (what \<open>%v\<close> prints). \<open>os.Stat\<close> returns
  an error or a \<open>FileInfo\<close>, of which the program reads \<open>IsDir()\<close> only.
\<close>

type_synonym os_error = string

datatype FileInfo = FileInfo (IsDir: bool)

text \<open>
  \<open>exec.Cmd\<close>: \<open>Path\<close> is the program to run, \<open>Args\<close> the argument vector with the
  command name first, \<open>Dir\<close> the working directory (empty: the caller's).
\<close>

record Cmd =
  Path :: string
  Args :: "string list"
  Dir :: string

text \<open>
  Everything outside the program is a parameter: \<open>'w\<close> is the state of the machine
  (file system, repositories, remotes). \<open>Stat\<close> reads it; \<open>Output\<close> (\<open>cmd.Output()\<close>) and
  \<open>Run\<close> (\<open>cmd.Run()\<close>) start an external process, which may change it. \<open>Output\<close>
  returns the bytes of the standard output together with the error, as Go does.
  \<open>LookPath\<close> is what \<open>exec.Command\<close> stores in \<open>Path\<close> for a command name, and
  \<open>Join\<close> is \<open>filepath.Join\<close>.
\<close>

record 'w os =
  LookPath :: "string \<Rightarrow> string"
  Join :: "string \<Rightarrow> string \<Rightarrow> string"
  Stat :: "'w \<Rightarrow> string \<Rightarrow> os_error + FileInfo"
  Output :: "Cmd \<Rightarrow> 'w \<Rightarrow> (string \<times> os_error option) \<times> 'w"
  Run :: "Cmd \<Rightarrow> 'w \<Rightarrow> os_error option \<times> 'w"

text \<open>
  The lines of the log file, one constructor per \<open>logger.Printf\<close> of the source, with
  the arguments of its format string; \<open>render\<close> gives the text (the logger puts a
  timestamp in front, which is not modelled).
\<close>

datatype event =
    KeinGitRepo string
  | FehlerBranchCheck string os_error
  | BranchNichtErlaubt string string
  | KeineAenderungen string
  | BearbeiteRepo string string
  | Fehler string os_error
  | VerzeichnisExistiert string
  | CheckoutFehler string os_error
  | ErfolgreichAusgecheckt string

definition nl :: string where "nl = [CHR 0x0A]"


text \<open>
  The state the program threads: the machine, the external processes it has started (in
  order), what it has printed on its standard output, and the log file.
\<close>

record 'w state =
  world :: 'w
  procs :: "Cmd list"
  stdout :: "string list"
  audit :: "event list"

definition logger_Printf :: "event \<Rightarrow> 'w state \<Rightarrow> 'w state" where
  "logger_Printf ev s = s\<lparr>audit := audit s @ [ev]\<rparr>"

text \<open>\<open>exec.Command(name, arg...)\<close>.\<close>

definition exec_Command :: "'w os \<Rightarrow> string \<Rightarrow> string list \<Rightarrow> Cmd" where
  "exec_Command os name arg = \<lparr>Path = LookPath os name, Args = name # arg, Dir = []\<rparr>"

section \<open>Command runner and repository probes\<close>

text \<open>
  \<open>run\<close>: with \<open>dryRun\<close> the command is printed and \<open>nil\<close> returned; otherwise the
  process runs (its output goes to the program's own streams, inside \<open>'w\<close>) and its
  error is returned. \<open>cmd.Args[1:]\<close> is \<open>tl\<close>: \<open>exec.Command\<close> never builds an empty
  \<open>Args\<close>.
\<close>

definition preview :: "Cmd \<Rightarrow> string" where
  "preview cmd = ''[Dry-Run] '' @ Path cmd @ '' '' @ strings_Join (tl (Args cmd)) '' '' @ nl"

definition run :: "'w os \<Rightarrow> Cmd \<Rightarrow> bool \<Rightarrow> 'w state \<Rightarrow> os_error option \<times> 'w state" where
  "run os cmd dryRun s =
     (if dryRun then (None, s\<lparr>stdout := stdout s @ [preview cmd]\<rparr>)
      else (case Run os cmd (world s) of
              (err, w') \<Rightarrow> (err, s\<lparr>world := w', procs := procs s @ [cmd]\<rparr>)))"

definition isGitRepo :: "'w os \<Rightarrow> string \<Rightarrow> 'w \<Rightarrow> bool" where
  "isGitRepo os path w =
     (case Stat os w (Join os path ''.git'') of
        Inl err \<Rightarrow> False
      | Inr info \<Rightarrow> IsDir info)"

definition status_cmd :: "'w os \<Rightarrow> string \<Rightarrow> Cmd" where
  "status_cmd os repo = (exec_Command os ''git'' [''status'', ''--porcelain''])\<lparr>Dir := repo\<rparr>"

definition hasChanges :: "'w os \<Rightarrow> string \<Rightarrow> 'w state \<Rightarrow> bool \<times> 'w state" where
  "hasChanges os repo s =
     (case Output os (status_cmd os repo) (world s) of
        ((out, err), w') \<Rightarrow>
          (let s' = s\<lparr>world := w', procs := procs s @ [status_cmd os repo]\<rparr>
           in case err of
                Some e \<Rightarrow> (False, s')
              | None \<Rightarrow> (length out > 0, s')))"

definition branch_cmd :: "'w os \<Rightarrow> string \<Rightarrow> Cmd" where
  "branch_cmd os repo =
     (exec_Command os ''git'' [''rev-parse'', ''--abbrev-ref'', ''HEAD''])\<lparr>Dir := repo\<rparr>"

definition getCurrentBranch :: "'w os \<Rightarrow> string \<Rightarrow> 'w state \<Rightarrow> (os_error + string) \<times> 'w state" where
  "getCurrentBranch os repo s =
     (case Output os (branch_cmd os repo) (world s) of
        ((out, err), w') \<Rightarrow>
          (let s' = s\<lparr>world := w', procs := procs s @ [branch_cmd os repo]\<rparr>
           in case err of
                Some e \<Rightarrow> (Inl e, s')
              | None \<Rightarrow> (Inr (strings_TrimSpace out), s')))"

section \<open>Commit and push\<close>

text \<open>The loop over \<open>allowedBranches\<close> that sets \<open>match\<close>.\<close>

fun branch_match :: "string list \<Rightarrow> string \<Rightarrow> bool" where
  "branch_match [] branch = False"
| "branch_match (b # bs) branch = (if b = branch then True else branch_match bs branch)"

text \<open>
  The loop over \<open>cmds\<close>: the first error is logged and ends the loop. \<open>step_cmd\<close> is
  the \<open>exec.Command(c[0], c[1:]...)\<close> of the loop body with \<open>Dir\<close> set; no element of
  \<open>cmds\<close> is empty.
\<close>

definition step_cmd :: "'w os \<Rightarrow> string \<Rightarrow> string list \<Rightarrow> Cmd" where
  "step_cmd os repo c = (exec_Command os (hd c) (tl c))\<lparr>Dir := repo\<rparr>"

fun run_cmds :: "'w os \<Rightarrow> string \<Rightarrow> bool \<Rightarrow> string list list \<Rightarrow> 'w state \<Rightarrow> 'w state" where
  "run_cmds os repo dryRun [] s = s"
| "run_cmds os repo dryRun (c # cs) s =
     (case run os (step_cmd os repo c) dryRun s of
        (Some err, s') \<Rightarrow> logger_Printf (Fehler repo err) s'
      | (None, s') \<Rightarrow> run_cmds os repo dryRun cs s')"

definition cmds :: "string \<Rightarrow> string list list" where
  "cmds commitMessage =
     [[''git'', ''add'', ''-A''],
      [''git'', ''commit'', ''-m'', commitMessage],
      [''git'', ''push'']]"

definition processRepo ::
  "'w os \<Rightarrow> string \<Rightarrow> string \<Rightarrow> string list \<Rightarrow> bool \<Rightarrow> 'w state \<Rightarrow> 'w state" where
  "processRepo os repo commitMessage allowedBranches dryRun s =
     (if \<not> isGitRepo os repo (world s) then logger_Printf (KeinGitRepo repo) s
      else (case getCurrentBranch os repo s of
              (Inl err, s1) \<Rightarrow> logger_Printf (FehlerBranchCheck repo err) s1
            | (Inr branch, s1) \<Rightarrow>
                if length allowedBranches > 0 \<and> \<not> branch_match allowedBranches branch
                then logger_Printf (BranchNichtErlaubt repo branch) s1
                else (case hasChanges os repo s1 of
                        (False, s2) \<Rightarrow> logger_Printf (KeineAenderungen repo) s2
                      | (True, s2) \<Rightarrow>
                          run_cmds os repo dryRun (cmds commitMessage)
                            (logger_Printf (BearbeiteRepo repo branch) s2))))"

section \<open>Checkout\<close>

text \<open>The clone command both variants of \<open>checkoutRepo\<close> build from a source location.\<close>

definition clone_cmd :: "'w os \<Rightarrow> string \<Rightarrow> string \<Rightarrow> string \<Rightarrow> Cmd" where
  "clone_cmd os branch src targetDir =
     exec_Command os ''git''
       (([''clone''] @ (if branch \<noteq> [] then [''-b'', branch] else [])) @ [src, targetDir])"

text \<open>
  The rest of \<open>checkoutRepo\<close> after the source location is known: the same text in both
  variants.
\<close>

definition clone_into :: "'w os \<Rightarrow> string \<Rightarrow> string \<Rightarrow> string \<Rightarrow> bool \<Rightarrow> 'w state \<Rightarrow> 'w state" where
  "clone_into os branch src targetDir dryRun s =
     (case run os (clone_cmd os branch src targetDir) dryRun s of
        (Some err, s') \<Rightarrow> logger_Printf (CheckoutFehler targetDir err) s'
      | (None, s') \<Rightarrow> logger_Printf (ErfolgreichAusgecheckt targetDir) s')"

text \<open>\<open>checkoutRepo\<close> of \<open>git-multi-push/main.go\<close>, with the provider URL.\<close>

definition fullURL :: "string \<Rightarrow> string \<Rightarrow> string" where
  "fullURL providerURL repoName = strings_TrimRight providerURL ''/'' @ ''/'' @ repoName @ ''.git''"

definition checkoutRepo ::
  "'w os \<Rightarrow> string \<Rightarrow> string \<Rightarrow> string \<Rightarrow> string \<Rightarrow> bool \<Rightarrow> 'w state \<Rightarrow> 'w state" where
  "checkoutRepo os providerURL repoName branch targetDir dryRun s =
     (case Stat os (world s) targetDir of
        Inr info \<Rightarrow> logger_Printf (VerzeichnisExistiert targetDir) s
      | Inl err \<Rightarrow> clone_into os branch (fullURL providerURL repoName) targetDir dryRun s)"

text \<open>\<open>checkoutRepo\<close> of the second variant of the program, which is given the URL.\<close>

definition checkoutRepo_url ::
  "'w os \<Rightarrow> string \<Rightarrow> string \<Rightarrow> string \<Rightarrow> bool \<Rightarrow> 'w state \<Rightarrow> 'w state" where
  "checkoutRepo_url os url branch targetDir dryRun s =
     (case Stat os (world s) targetDir of
        Inr info \<Rightarrow> logger_Printf (VerzeichnisExistiert targetDir) s
      | Inl err \<Rightarrow> clone_into os branch url targetDir dryRun s)"

section \<open>The parts of \<open>main\<close>\<close>

text \<open>The allowed branches from the \<open>-branch\<close> flag.\<close>

definition main_allowedBranches :: "string \<Rightarrow> string list" where
  "main_allowedBranches branches = (if branches \<noteq> [] then strings_Split branches CHR '','' else [])"

text \<open>The target directory the second variant derives from a URL.\<close>

definition main_targetDir_url :: "string \<Rightarrow> string" where
  "main_targetDir_url url = strings_TrimSuffix (filepath_Base url) ''.git''"

text \<open>
  The jobs of the checkout loop of \<open>main\<close> (one function per variant), one after the
  other in the order of the list.
  This is the schedule of \<open>-parallel 1\<close>: the send on \<open>sem\<close> of the next iteration blocks
  until the running job has returned and taken its element back. With more slots it is
  one of the possible schedules.
\<close>

fun main_checkout :: "'w os \<Rightarrow> string \<Rightarrow> bool \<Rightarrow> string list \<Rightarrow> 'w state \<Rightarrow> 'w state" where
  "main_checkout os providerURL dryRun [] s = s"
| "main_checkout os providerURL dryRun (repoName # lines) s =
     main_checkout os providerURL dryRun lines
       (checkoutRepo os providerURL repoName [] repoName dryRun s)"

fun main_checkout_url :: "'w os \<Rightarrow> bool \<Rightarrow> string list \<Rightarrow> 'w state \<Rightarrow> 'w state" where
  "main_checkout_url os dryRun [] s = s"
| "main_checkout_url os dryRun (url # lines) s =
     main_checkout_url os dryRun lines
       (checkoutRepo_url os url [] (main_targetDir_url url) dryRun s)"

section \<open>The concurrency gate\<close>

text \<open>
  The loops of \<open>main\<close> as an interleaving of atomic steps. The main goroutine is at one
  of: \<open>wg.Add(1)\<close>, the send \<open>sem <- struct{}{}\<close>, the \<open>go\<close> statement, \<open>wg.Wait()\<close>,
  or past it. \<open>sem\<close> is the number of elements in the channel, whose capacity is
  \<open>parallel\<close>; a send blocks while the channel is full and a receive while it is empty.
  A started goroutine is in \<open>working\<close> (with its target) until \<open>processRepo\<close> or
  \<open>checkoutRepo\<close> has returned, which ends with the deferred \<open>wg.Done()\<close>; it is then
  counted in \<open>leaving\<close> until its own deferred receive \<open><-sem\<close> has run.
\<close>

datatype pc = AtAdd | AtSend | AtGo | AtWait | Past

record sched =
  todo :: "string list"
  mpc :: pc
  sem :: nat
  wg :: nat
  working :: "string list"
  leaving :: nat

definition sched_init :: "string list \<Rightarrow> sched" where
  "sched_init lines = \<lparr>todo = lines, mpc = AtAdd, sem = 0, wg = 0, working = [], leaving = 0\<rparr>"

inductive step :: "nat \<Rightarrow> sched \<Rightarrow> sched \<Rightarrow> bool" for parallel :: nat where
  wg_Add: "mpc s = AtAdd \<Longrightarrow> todo s \<noteq> [] \<Longrightarrow>
     step parallel s (s\<lparr>mpc := AtSend, wg := wg s + 1\<rparr>)"
| loop_end: "mpc s = AtAdd \<Longrightarrow> todo s = [] \<Longrightarrow>
     step parallel s (s\<lparr>mpc := AtWait\<rparr>)"
| sem_send: "mpc s = AtSend \<Longrightarrow> sem s < parallel \<Longrightarrow>
     step parallel s (s\<lparr>mpc := AtGo, sem := sem s + 1\<rparr>)"
| go: "mpc s = AtGo \<Longrightarrow> todo s = t # ts \<Longrightarrow>
     step parallel s (s\<lparr>mpc := AtAdd, todo := ts, working := t # working s\<rparr>)"
| wg_Done: "t \<in> set (working s) \<Longrightarrow>
     step parallel s
       (s\<lparr>working := remove1 t (working s), wg := wg s - 1, leaving := leaving s + 1\<rparr>)"
| sem_receive: "0 < leaving s \<Longrightarrow> 0 < sem s \<Longrightarrow>
     step parallel s (s\<lparr>leaving := leaving s - 1, sem := sem s - 1\<rparr>)"
| wg_Wait: "mpc s = AtWait \<Longrightarrow> wg s = 0 \<Longrightarrow>
     step parallel s (s\<lparr>mpc := Past\<rparr>)"

inductive reachable :: "nat \<Rightarrow> string list \<Rightarrow> sched \<Rightarrow> bool"
  for parallel :: nat and lines :: "string list" where
  start: "reachable parallel lines (sched_init lines)"
| next_step: "reachable parallel lines s \<Longrightarrow> step parallel s s' \<Longrightarrow> reachable parallel lines s'"

section \<open>A small machine to run the program on\<close>

text \<open>
  The machine is the list of the paths that exist, each with whether it is a directory.
  Both probes print a fixed answer; \<open>git clone\<close> creates its target directory; a command
  whose arguments are in \<open>failing\<close> ends with an error and changes nothing.
\<close>

type_synonym disk = "(string \<times> bool) list"

definition sim_os ::
  "string \<times> os_error option \<Rightarrow> string \<times> os_error option \<Rightarrow> string list list \<Rightarrow> disk os" where
  "sim_os branch_out status_out failing =
     \<lparr>LookPath = (\<lambda>name. ''/usr/bin/'' @ name),
      Join = (\<lambda>a b. a @ ''/'' @ b),
      Stat = (\<lambda>w p. case map_of w p of
                       None \<Rightarrow> Inl ''no such file or directory''
                     | Some d \<Rightarrow> Inr (FileInfo d)),
      Output = (\<lambda>cmd w. (if Args cmd = [''git'', ''status'', ''--porcelain'']
                          then status_out else branch_out, w)),
      Run = (\<lambda>cmd w.
               if Args cmd \<in> set failing then (Some ''exit status 1'', w)
               else if take 2 (Args cmd) = [''git'', ''clone''] then (None, w @ [(last (Args cmd), True)])
               else (None, w))\<rparr>"

definition sim_state :: "disk \<Rightarrow> disk state" where
  "sim_state w = \<lparr>world = w, procs = [], stdout = [], audit = []\<rparr>"

section \<open>Facts about the runner, the probes and the loops\<close>

lemmas sim_defs = sim_os_def sim_state_def isGitRepo_def getCurrentBranch_def hasChanges_def
  exec_Command_def step_cmd_def branch_cmd_def status_cmd_def strings_TrimSpace_def
  isSpace1_def isSpace2_def isSpace3_def nl_def

lemma branch_match_set: "branch_match bs branch = (branch \<in> set bs)"
  by (induction bs) auto

lemma run_dry: "run os cmd True s = (None, s\<lparr>stdout := stdout s @ [preview cmd]\<rparr>)"
  by (simp add: run_def)

lemma run_cmds_dry:
  "run_cmds os repo True cs s = s\<lparr>stdout := stdout s @ map (\<lambda>c. preview (step_cmd os repo c)) cs\<rparr>"
  by (induction cs arbitrary: s) (simp_all add: run_dry)

lemma audit_run: "audit (snd (run os cmd dryRun s)) = audit s"
  by (simp add: run_def split: prod.splits)

lemma audit_run_cmds:
  "audit (run_cmds os repo dryRun cs s) = audit s \<or>
   (\<exists>e. audit (run_cmds os repo dryRun cs s) = audit s @ [Fehler repo e])"
proof (induction cs arbitrary: s)
  case Nil
  show ?case by simp
next
  case (Cons c cs)
  obtain r s' where r: "run os (step_cmd os repo c) dryRun s = (r, s')"
    by (cases "run os (step_cmd os repo c) dryRun s")
  then have a: "audit s' = audit s"
    using audit_run [of os "step_cmd os repo c" dryRun s] by simp
  show ?case
  proof (cases r)
    case None
    then show ?thesis using r a Cons.IH [of s'] by simp
  next
    case (Some e)
    then show ?thesis using r a by (simp add: logger_Printf_def)
  qed
qed

lemma audit_getCurrentBranch: "getCurrentBranch os repo s = (r, s1) \<Longrightarrow> audit s1 = audit s"
  by (auto simp: getCurrentBranch_def Let_def split: prod.splits option.splits)

lemma audit_hasChanges: "hasChanges os repo s = (r, s1) \<Longrightarrow> audit s1 = audit s"
  by (auto simp: hasChanges_def Let_def split: prod.splits option.splits)

lemma processRepo_checked:
  assumes "isGitRepo os repo (world s)"
    and "getCurrentBranch os repo s = (Inr branch, s1)"
  shows "processRepo os repo msg allowed dryRun s =
     (if allowed \<noteq> [] \<and> branch \<notin> set allowed
      then logger_Printf (BranchNichtErlaubt repo branch) s1
      else if fst (hasChanges os repo s1)
      then run_cmds os repo dryRun (cmds msg)
             (logger_Printf (BearbeiteRepo repo branch) (snd (hasChanges os repo s1)))
      else logger_Printf (KeineAenderungen repo) (snd (hasChanges os repo s1)))"
  using assms by (simp add: processRepo_def branch_match_set split: prod.splits bool.splits)

lemma run_real:
  "Run os cmd (world s) = (e, w) \<Longrightarrow>
   run os cmd False s = (e, s\<lparr>world := w, procs := procs s @ [cmd]\<rparr>)"
  by (simp add: run_def)

lemma run_cmds3_real:
  assumes "Run os (step_cmd os repo a) (world s) = (e1, w1)"
    and "Run os (step_cmd os repo b) w1 = (e2, w2)"
    and "Run os (step_cmd os repo c) w2 = (e3, w3)"
  shows "run_cmds os repo False [a, b, c] s =
    (case e1 of
       Some x \<Rightarrow> s\<lparr>world := w1, procs := procs s @ [step_cmd os repo a],
                  audit := audit s @ [Fehler repo x]\<rparr>
     | None \<Rightarrow>
        (case e2 of
           Some x \<Rightarrow> s\<lparr>world := w2, procs := procs s @ [step_cmd os repo a, step_cmd os repo b],
                      audit := audit s @ [Fehler repo x]\<rparr>
         | None \<Rightarrow>
            (case e3 of
               Some x \<Rightarrow> s\<lparr>world := w3,
                          procs := procs s @ [step_cmd os repo a, step_cmd os repo b, step_cmd os repo c],
                          audit := audit s @ [Fehler repo x]\<rparr>
             | None \<Rightarrow> s\<lparr>world := w3,
                          procs := procs s @ [step_cmd os repo a, step_cmd os repo b, step_cmd os repo c]\<rparr>)))"
  using assms by (simp add: run_def logger_Printf_def split: option.splits)

lemma branch_not_allowed_iff:
  assumes "isGitRepo os repo (world s)"
    and "getCurrentBranch os repo s = (Inr branch, s1)"
  shows "(processRepo os repo msg allowed dryRun s = logger_Printf (BranchNichtErlaubt repo branch) s1)
         = (allowed \<noteq> [] \<and> branch \<notin> set allowed)"
proof (cases "allowed \<noteq> [] \<and> branch \<notin> set allowed")
  case True
  then show ?thesis using processRepo_checked [OF assms] by simp
next
  case False
  obtain c s2 where h: "hasChanges os repo s1 = (c, s2)"
    by (cases "hasChanges os repo s1")
  have a2: "audit s2 = audit s1" using audit_hasChanges [OF h] .
  have "audit (processRepo os repo msg allowed dryRun s) \<noteq> audit s1 @ [BranchNichtErlaubt repo branch]"
  proof (cases c)
    case True
    then have "processRepo os repo msg allowed dryRun s =
      run_cmds os repo dryRun (cmds msg) (logger_Printf (BearbeiteRepo repo branch) s2)"
      using processRepo_checked [OF assms, of msg allowed dryRun] False h by simp
    then show ?thesis
      using audit_run_cmds [of os repo dryRun "cmds msg" "logger_Printf (BearbeiteRepo repo branch) s2"] a2
      by (auto simp: logger_Printf_def)
  next
    case False
    then have "processRepo os repo msg allowed dryRun s = logger_Printf (KeineAenderungen repo) s2"
      using processRepo_checked [OF assms, of msg allowed dryRun] \<open>\<not> (allowed \<noteq> [] \<and> branch \<notin> set allowed)\<close> h by simp
    then show ?thesis using a2 by (simp add: logger_Printf_def)
  qed
  then have "processRepo os repo msg allowed dryRun s \<noteq> logger_Printf (BranchNichtErlaubt repo branch) s1"
    by (auto simp: logger_Printf_def)
  with False show ?thesis by simp
qed

lemma no_branch_skip_unfiltered:
  "BranchNichtErlaubt r b \<notin> set (drop (length (audit s)) (audit (processRepo os repo msg [] dryRun s)))"
proof (cases "isGitRepo os repo (world s)")
  case False
  then show ?thesis by (simp add: processRepo_def logger_Printf_def)
next
  case True
  obtain res s1 where g: "getCurrentBranch os repo s = (res, s1)"
    by (cases "getCurrentBranch os repo s")
  have a1: "audit s1 = audit s" using audit_getCurrentBranch [OF g] .
  show ?thesis
  proof (cases res)
    case (Inl e)
    then show ?thesis using True g a1 by (simp add: processRepo_def logger_Printf_def)
  next
    case (Inr branch)
    obtain c s2 where h: "hasChanges os repo s1 = (c, s2)"
      by (cases "hasChanges os repo s1")
    have a2: "audit s2 = audit s" using audit_hasChanges [OF h] a1 by simp
    have p: "processRepo os repo msg [] dryRun s =
       (if c then run_cmds os repo dryRun (cmds msg) (logger_Printf (BearbeiteRepo repo branch) s2)
        else logger_Printf (KeineAenderungen repo) s2)"
      using processRepo_checked [of os repo s branch s1 msg "[]" dryRun] True g Inr h by simp
    show ?thesis
    proof (cases c)
      case False
      then show ?thesis using p a2 by (simp add: logger_Printf_def)
    next
      case True
      then show ?thesis
        using p a2 audit_run_cmds [of os repo dryRun "cmds msg" "logger_Printf (BearbeiteRepo repo branch) s2"]
        by (auto simp: logger_Printf_def)
    qed
  qed
qed

lemmas prog_defs = processRepo_def checkoutRepo_def checkoutRepo_url_def clone_into_def
  clone_cmd_def run_def cmds_def logger_Printf_def fullURL_def strings_TrimRight_def preview_def

lemma os_Run_update [simp]:
  "exec_Command (os\<lparr>Run := r\<rparr>) = exec_Command os"
  "step_cmd (os\<lparr>Run := r\<rparr>) = step_cmd os"
  "isGitRepo (os\<lparr>Run := r\<rparr>) = isGitRepo os"
  "getCurrentBranch (os\<lparr>Run := r\<rparr>) = getCurrentBranch os"
  "hasChanges (os\<lparr>Run := r\<rparr>) = hasChanges os"
  "clone_cmd (os\<lparr>Run := r\<rparr>) = clone_cmd os"
  by (simp_all add: fun_eq_iff exec_Command_def step_cmd_def isGitRepo_def getCurrentBranch_def
      hasChanges_def clone_cmd_def branch_cmd_def status_cmd_def)

lemma run_dry_indep: "run (os\<lparr>Run := r\<rparr>) cmd True s = run os cmd True s"
  by (simp add: run_def)






section \<open>Facts about the library functions and the gate\<close>

lemma strings_Split_nonempty: "strings_Split s sep \<noteq> []"
  by (induction s) (auto split: list.splits)

lemma strings_Split_no_sep: "sep \<notin> set x \<Longrightarrow> strings_Split x sep = [x]"
  by (induction x) auto

lemma strings_Split_append:
  "strings_Split (pre @ sep # x) sep = strings_Split pre sep @ strings_Split x sep"
proof (induction pre)
  case Nil
  show ?case by simp
next
  case (Cons c pre)
  obtain y ys where y: "strings_Split pre sep = y # ys"
    using strings_Split_nonempty [of pre sep] by (cases "strings_Split pre sep") auto
  show ?case using Cons.IH y by simp
qed

lemma strings_Join_Cons:
  "xs \<noteq> [] \<Longrightarrow> strings_Join (x # xs) sep = x @ sep @ strings_Join xs sep"
  by (cases xs) auto

lemma strings_Join_Split: "strings_Join (strings_Split s sep) [sep] = s"
proof (induction s)
  case Nil
  show ?case by simp
next
  case (Cons c s)
  obtain y ys where y: "strings_Split s sep = y # ys"
    using strings_Split_nonempty [of s sep] by (cases "strings_Split s sep") auto
  show ?case
  proof (cases "c = sep")
    case True
    then show ?thesis using Cons.IH strings_Split_nonempty [of s sep]
      by (simp add: strings_Join_Cons)
  next
    case False
    then show ?thesis using Cons.IH y by (cases ys) auto
  qed
qed

lemma fullURL_trim:
  "b = [] \<or> last b \<noteq> CHR ''/'' \<Longrightarrow>
   fullURL (b @ replicate n CHR ''/'') repoName = b @ ''/'' @ repoName @ ''.git''"
proof -
  assume b: "b = [] \<or> last b \<noteq> CHR ''/''"
  have r: "dropWhile (\<lambda>c. c = CHR ''/'') (replicate n CHR ''/'' @ rev b) = rev b"
  proof (induction n)
    case 0
    show ?case using b by (cases b rule: rev_cases) auto
  next
    case (Suc n)
    then show ?case by simp
  qed
  show ?thesis by (simp add: fullURL_def strings_TrimRight_def r)
qed

lemma filepath_Base_segment:
  assumes "CHR ''/'' \<notin> set seg" and "seg \<noteq> []"
  shows "filepath_Base (pre @ ''/'' @ seg) = seg" and "filepath_Base seg = seg"
proof -
  obtain c cs where r: "rev seg = c # cs" using assms(2) by (cases "rev seg") auto
  have c: "c \<noteq> CHR ''/''" using assms(1) r
    by (metis list.set_intros(1) set_rev)
  have d: "dropWhile (\<lambda>c. c = CHR ''/'') (rev seg @ xs) = rev seg @ xs" for xs
    using r c by simp
  have t0: "takeWhile (\<lambda>c. c \<noteq> CHR ''/'') (rev seg) = rev seg"
    using assms(1) by (auto simp: takeWhile_eq_all_conv)
  have t: "takeWhile (\<lambda>c. c \<noteq> CHR ''/'') (rev seg @ CHR ''/'' # xs) = rev seg" for xs
    using t0 by (simp add: takeWhile_tail)
  have d0: "dropWhile (\<lambda>c. c = CHR ''/'') (rev seg) = rev seg"
    using d [of "[]"] by simp
  show "filepath_Base (pre @ ''/'' @ seg) = seg"
    using assms(2) by (simp add: filepath_Base_def Let_def d t)
  show "filepath_Base seg = seg"
    using assms(2) by (simp add: filepath_Base_def Let_def d0 t0)
qed

lemma strings_TrimSuffix_cases:
  "strings_TrimSuffix (x @ suffix) suffix = x"
  "\<not> strings_HasSuffix s suffix \<Longrightarrow> strings_TrimSuffix s suffix = s"
  by (auto simp: strings_TrimSuffix_def strings_HasSuffix_def)

lemma gate_invariant:
  "reachable parallel lines s \<Longrightarrow>
   length (working s) + leaving s + (if mpc s = AtGo then 1 else 0) = sem s \<and> sem s \<le> parallel"
proof (induction rule: reachable.induct)
  case start
  show ?case by (simp add: sched_init_def)
next
  case (next_step s s')
  from next_step.hyps(2) next_step.IH show ?case
  proof (cases rule: step.cases)
    case (wg_Done t)
    have "length (working s) = Suc (length (remove1 t (working s)))"
      using wg_Done(2) length_pos_if_in_set [of t "working s"] by (simp add: length_remove1)
    then show ?thesis using wg_Done(1) next_step.IH by (auto split: if_splits)
  qed (auto split: if_splits)
qed

section \<open>The steps of commit and push\<close>

text \<open>
  Claim C1. A target that reaches the three steps (it is a repository, its branch is read
  and accepted, it has changes) runs \<open>git add -A\<close>, \<open>git commit -m msg\<close> and
  \<open>git push\<close> through \<open>run\<close>, in this order, each on the machine the step before left.
  The first step that returns an error is the last process started: the error is logged
  and nothing is run after it, so nothing is undone. Without an error all three have
  run. With \<open>dryRun\<close> the three are printed in the same order and none is started.
\<close>

theorem pipeline_order:
  assumes "isGitRepo os repo (world s)"
    and "getCurrentBranch os repo s = (Inr branch, s1)"
    and "allowed = [] \<or> branch \<in> set allowed"
    and "hasChanges os repo s1 = (True, s2)"
    and "Run os (step_cmd os repo [''git'', ''add'', ''-A'']) (world s2) = (e1, w1)"
    and "Run os (step_cmd os repo [''git'', ''commit'', ''-m'', msg]) w1 = (e2, w2)"
    and "Run os (step_cmd os repo [''git'', ''push'']) w2 = (e3, w3)"
  shows "processRepo os repo msg allowed False s =
    (case e1 of
       Some x \<Rightarrow>
         s2\<lparr>world := w1,
            procs := procs s2 @ [step_cmd os repo [''git'', ''add'', ''-A'']],
            audit := audit s2 @ [BearbeiteRepo repo branch, Fehler repo x]\<rparr>
     | None \<Rightarrow>
        (case e2 of
           Some x \<Rightarrow>
             s2\<lparr>world := w2,
                procs := procs s2 @ [step_cmd os repo [''git'', ''add'', ''-A''],
                                     step_cmd os repo [''git'', ''commit'', ''-m'', msg]],
                audit := audit s2 @ [BearbeiteRepo repo branch, Fehler repo x]\<rparr>
         | None \<Rightarrow>
            (case e3 of
               Some x \<Rightarrow>
                 s2\<lparr>world := w3,
                    procs := procs s2 @ [step_cmd os repo [''git'', ''add'', ''-A''],
                                         step_cmd os repo [''git'', ''commit'', ''-m'', msg],
                                         step_cmd os repo [''git'', ''push'']],
                    audit := audit s2 @ [BearbeiteRepo repo branch, Fehler repo x]\<rparr>
             | None \<Rightarrow>
                 s2\<lparr>world := w3,
                    procs := procs s2 @ [step_cmd os repo [''git'', ''add'', ''-A''],
                                         step_cmd os repo [''git'', ''commit'', ''-m'', msg],
                                         step_cmd os repo [''git'', ''push'']],
                    audit := audit s2 @ [BearbeiteRepo repo branch]\<rparr>))) \<and>
    processRepo os repo msg allowed True s =
      s2\<lparr>stdout := stdout s2 @ [preview (step_cmd os repo [''git'', ''add'', ''-A'']),
                                  preview (step_cmd os repo [''git'', ''commit'', ''-m'', msg]),
                                  preview (step_cmd os repo [''git'', ''push''])],
         audit := audit s2 @ [BearbeiteRepo repo branch]\<rparr>"
proof -
  let ?s3 = "logger_Printf (BearbeiteRepo repo branch) s2"
  have p: "processRepo os repo msg allowed d s = run_cmds os repo d (cmds msg) ?s3" for d
    using processRepo_checked [OF assms(1,2), of msg allowed d] assms(3,4) by auto
  have w: "world ?s3 = world s2" by (simp add: logger_Printf_def)
  have real: "processRepo os repo msg allowed False s = 
     run_cmds os repo False [[''git'', ''add'', ''-A''], [''git'', ''commit'', ''-m'', msg], [''git'', ''push'']] ?s3"
    using p by (simp add: cmds_def)
  have dry: "processRepo os repo msg allowed True s =
      s2\<lparr>stdout := stdout s2 @ [preview (step_cmd os repo [''git'', ''add'', ''-A'']),
                                  preview (step_cmd os repo [''git'', ''commit'', ''-m'', msg]),
                                  preview (step_cmd os repo [''git'', ''push''])],
         audit := audit s2 @ [BearbeiteRepo repo branch]\<rparr>"
    unfolding p run_cmds_dry by (simp add: cmds_def logger_Printf_def)
  show ?thesis
    unfolding real
    using run_cmds3_real [of os repo "[''git'', ''add'', ''-A'']" ?s3 e1 w1
        "[''git'', ''commit'', ''-m'', msg]" e2 w2 "[''git'', ''push'']" e3 w3] assms(5,6,7) w dry
    by (simp add: logger_Printf_def split: option.splits)
qed

theorem pipeline_order_witness:
  "processRepo (sim_os (''main'' @ nl, None) ('' M f'' @ nl, None) [[''git'', ''commit'', ''-m'', ''sync'']])
     ''repoA'' ''sync'' [''main''] False (sim_state [(''repoA/.git'', True)]) =
   \<lparr>world = [(''repoA/.git'', True)],
    procs = [\<lparr>Path = ''/usr/bin/git'', Args = [''git'', ''rev-parse'', ''--abbrev-ref'', ''HEAD''], Dir = ''repoA''\<rparr>,
             \<lparr>Path = ''/usr/bin/git'', Args = [''git'', ''status'', ''--porcelain''], Dir = ''repoA''\<rparr>,
             \<lparr>Path = ''/usr/bin/git'', Args = [''git'', ''add'', ''-A''], Dir = ''repoA''\<rparr>,
             \<lparr>Path = ''/usr/bin/git'', Args = [''git'', ''commit'', ''-m'', ''sync''], Dir = ''repoA''\<rparr>],
    stdout = [],
    audit = [BearbeiteRepo ''repoA'' ''main'', Fehler ''repoA'' ''exit status 1'']\<rparr>"
proof -
  let ?os = "sim_os (''main'' @ nl, None) ('' M f'' @ nl, None) [[''git'', ''commit'', ''-m'', ''sync'']]"
  let ?w = "[(''repoA/.git'', True)]"
  let ?s1 = "(sim_state ?w)\<lparr>world := ?w, procs := [branch_cmd ?os ''repoA'']\<rparr>"
  let ?s2 = "?s1\<lparr>world := ?w, procs := procs ?s1 @ [status_cmd ?os ''repoA'']\<rparr>"
  have h1: "isGitRepo ?os ''repoA'' (world (sim_state ?w))" by (simp add: sim_defs)
  have h2: "getCurrentBranch ?os ''repoA'' (sim_state ?w) = (Inr ''main'', ?s1)"
    by (simp add: sim_defs)
  have h3: "[''main''] = [] \<or> ''main'' \<in> set [''main'']" by simp
  have h4: "hasChanges ?os ''repoA'' ?s1 = (True, ?s2)" by (simp add: sim_defs)
  have h5: "Run ?os (step_cmd ?os ''repoA'' [''git'', ''add'', ''-A'']) (world ?s2) = (None, ?w)"
    by (simp add: sim_defs)
  have h6: "Run ?os (step_cmd ?os ''repoA'' [''git'', ''commit'', ''-m'', ''sync'']) ?w = (Some ''exit status 1'', ?w)"
    by (simp add: sim_defs)
  have h7: "Run ?os (step_cmd ?os ''repoA'' [''git'', ''push'']) ?w = (None, ?w)"
    by (simp add: sim_defs)
  show ?thesis
    using pipeline_order [OF h1 h2 h3 h4 h5 h6 h7] by (simp add: sim_defs)
qed

section \<open>The branch filter\<close>

text \<open>
  Claim C3. For a target that is a repository and whose current branch has been read,
  \<open>processRepo\<close> ends with the line "branch not allowed" (and nothing else done) if and
  only if the list of allowed branches is not empty and does not contain that branch.
  With the empty list no line "branch not allowed" is written for any target.
\<close>

theorem branch_filter:
  "(isGitRepo os repo (world s) \<and> getCurrentBranch os repo s = (Inr branch, s1) \<longrightarrow>
      (processRepo os repo msg allowed dryRun s = logger_Printf (BranchNichtErlaubt repo branch) s1)
      = (allowed \<noteq> [] \<and> branch \<notin> set allowed)) \<and>
   BranchNichtErlaubt r b \<notin>
      set (drop (length (audit s)) (audit (processRepo os repo msg [] dryRun s)))"
  using branch_not_allowed_iff [of os repo s branch s1 msg allowed dryRun]
    no_branch_skip_unfiltered [of r b s os repo msg dryRun]
  by blast

theorem branch_filter_witness:
  "processRepo (sim_os (''feature-x'' @ nl, None) ('' M f'' @ nl, None) [])
     ''repoA'' ''sync'' [''main''] False (sim_state [(''repoA/.git'', True)]) =
   \<lparr>world = [(''repoA/.git'', True)],
    procs = [\<lparr>Path = ''/usr/bin/git'', Args = [''git'', ''rev-parse'', ''--abbrev-ref'', ''HEAD''],
              Dir = ''repoA''\<rparr>],
    stdout = [],
    audit = [BranchNichtErlaubt ''repoA'' ''feature-x'']\<rparr>"
proof -
  let ?os = "sim_os (''feature-x'' @ nl, None) ('' M f'' @ nl, None) []"
  let ?w = "[(''repoA/.git'', True)]"
  let ?s1 = "(sim_state ?w)\<lparr>world := ?w, procs := [branch_cmd ?os ''repoA'']\<rparr>"
  have h1: "isGitRepo ?os ''repoA'' (world (sim_state ?w))" by (simp add: sim_defs)
  have h2: "getCurrentBranch ?os ''repoA'' (sim_state ?w) = (Inr ''feature-x'', ?s1)"
    by (simp add: sim_defs)
  have h3: "[''main''] \<noteq> [] \<and> ''feature-x'' \<notin> set [''main'']" by simp
  show ?thesis
    using branch_filter [of ?os "''repoA''" "sim_state ?w" "''feature-x''" ?s1 "''sync''"
        "[''main'']" False] h1 h2 h3
    by (simp add: sim_defs logger_Printf_def)
qed

section \<open>The status probe\<close>

text \<open>
  Claim C7. \<open>hasChanges\<close> answers true exactly when \<open>git status --porcelain\<close> ends
  without error and has printed something; with an error the answer is false, whatever was
  printed. A target that has passed the earlier checks and whose status probe ends with an
  error is therefore logged as "no changes" and left: after the probe nothing is run and
  nothing is printed.
\<close>

theorem hasChanges_probe:
  "fst (hasChanges os repo s) =
     (snd (fst (Output os (status_cmd os repo) (world s))) = None \<and>
      fst (fst (Output os (status_cmd os repo) (world s))) \<noteq> []) \<and>
   (isGitRepo os repo (world s) \<and> getCurrentBranch os repo s = (Inr branch, s1) \<and>
    (allowed = [] \<or> branch \<in> set allowed) \<and>
    Output os (status_cmd os repo) (world s1) = ((out, Some e), w2) \<longrightarrow>
      processRepo os repo msg allowed dryRun s =
        logger_Printf (KeineAenderungen repo)
          (s1\<lparr>world := w2, procs := procs s1 @ [status_cmd os repo]\<rparr>))"
proof -
  have a: "fst (hasChanges os repo s) =
     (snd (fst (Output os (status_cmd os repo) (world s))) = None \<and>
      fst (fst (Output os (status_cmd os repo) (world s))) \<noteq> [])"
    by (simp add: hasChanges_def Let_def split: prod.splits option.splits)
  have b: "processRepo os repo msg allowed dryRun s =
        logger_Printf (KeineAenderungen repo)
          (s1\<lparr>world := w2, procs := procs s1 @ [status_cmd os repo]\<rparr>)"
    if h: "isGitRepo os repo (world s)" "getCurrentBranch os repo s = (Inr branch, s1)"
      "allowed = [] \<or> branch \<in> set allowed"
      "Output os (status_cmd os repo) (world s1) = ((out, Some e), w2)"
  proof -
    have "hasChanges os repo s1 = (False, s1\<lparr>world := w2, procs := procs s1 @ [status_cmd os repo]\<rparr>)"
      using h(4) by (simp add: hasChanges_def)
    then show ?thesis
      using processRepo_checked [OF h(1,2), of msg allowed dryRun] h(3) by auto
  qed
  show ?thesis using a b by blast
qed

theorem hasChanges_probe_witness:
  "\<not> fst (hasChanges (sim_os (''main'' @ nl, None) (''fatal: bad index'', Some ''exit status 128'') [])
       ''repoA'' (sim_state [(''repoA/.git'', True)])) \<and>
   processRepo (sim_os (''main'' @ nl, None) (''fatal: bad index'', Some ''exit status 128'') [])
     ''repoA'' ''sync'' [''main''] False (sim_state [(''repoA/.git'', True)]) =
   \<lparr>world = [(''repoA/.git'', True)],
    procs = [\<lparr>Path = ''/usr/bin/git'', Args = [''git'', ''rev-parse'', ''--abbrev-ref'', ''HEAD''],
              Dir = ''repoA''\<rparr>,
             \<lparr>Path = ''/usr/bin/git'', Args = [''git'', ''status'', ''--porcelain''],
              Dir = ''repoA''\<rparr>],
    stdout = [],
    audit = [KeineAenderungen ''repoA'']\<rparr>"
proof -
  let ?os = "sim_os (''main'' @ nl, None) (''fatal: bad index'', Some ''exit status 128'') []"
  let ?w = "[(''repoA/.git'', True)]"
  let ?s1 = "(sim_state ?w)\<lparr>world := ?w, procs := [branch_cmd ?os ''repoA'']\<rparr>"
  have h1: "isGitRepo ?os ''repoA'' (world (sim_state ?w))" by (simp add: sim_defs)
  have h2: "getCurrentBranch ?os ''repoA'' (sim_state ?w) = (Inr ''main'', ?s1)"
    by (simp add: sim_defs)
  have h3: "[''main''] = [] \<or> ''main'' \<in> set [''main'']" by simp
  have h4: "Output ?os (status_cmd ?os ''repoA'') (world ?s1) =
      ((''fatal: bad index'', Some ''exit status 128''), ?w)"
    by (simp add: sim_defs)
  have o: "snd (fst (Output ?os (status_cmd ?os ''repoA'') (world (sim_state ?w)))) \<noteq> None"
    by (simp add: sim_defs)
  show ?thesis
    using hasChanges_probe [of ?os "''repoA''" "sim_state ?w" "''main''" ?s1 "[''main'']"
        "''fatal: bad index''" "''exit status 128''" ?w "''sync''" False] h1 h2 h3 h4 o
    by (simp add: sim_defs logger_Printf_def)
qed

section \<open>What is logged\<close>

text \<open>
  Claim C2. The log after a target whose three steps all end without error: the only line
  of that target is the one written before the steps ("Bearbeite Repo auf Branch"); no
  line is written after the last step. The checkout of a target, in contrast, ends with
  the line "Erfolgreich ausgecheckt".
\<close>

theorem success_not_logged:
  "processRepo (sim_os (''main'' @ nl, None) ('' M f'' @ nl, None) [])
     ''repoA'' ''sync'' [''main''] False (sim_state [(''repoA/.git'', True)]) =
   \<lparr>world = [(''repoA/.git'', True)],
    procs = [\<lparr>Path = ''/usr/bin/git'', Args = [''git'', ''rev-parse'', ''--abbrev-ref'', ''HEAD''],
              Dir = ''repoA''\<rparr>,
             \<lparr>Path = ''/usr/bin/git'', Args = [''git'', ''status'', ''--porcelain''],
              Dir = ''repoA''\<rparr>,
             \<lparr>Path = ''/usr/bin/git'', Args = [''git'', ''add'', ''-A''], Dir = ''repoA''\<rparr>,
             \<lparr>Path = ''/usr/bin/git'', Args = [''git'', ''commit'', ''-m'', ''sync''],
              Dir = ''repoA''\<rparr>,
             \<lparr>Path = ''/usr/bin/git'', Args = [''git'', ''push''], Dir = ''repoA''\<rparr>],
    stdout = [],
    audit = [BearbeiteRepo ''repoA'' ''main'']\<rparr> \<and>
   audit (checkoutRepo (sim_os ([], None) ([], None) []) ''https://example.org/org'' ''teamrepo'' []
            ''teamrepo'' False (sim_state [])) =
     [ErfolgreichAusgecheckt ''teamrepo'']"
  by (simp add: prog_defs sim_defs)

section \<open>Dry run\<close>



section \<open>Checkout of a target that exists\<close>




text \<open>
  Claim C10. The test is the success of \<open>os.Stat\<close> alone: whatever \<open>IsDir\<close> says of
  the path, the target is logged as existing and skipped; whatever the error is, the clone
  goes to the runner, which starts it or, with \<open>dryRun\<close>, prints it.
\<close>

theorem stat_check:
  "(Stat os (world s) targetDir = Inr (FileInfo isdir) \<longrightarrow>
      checkoutRepo os providerURL repoName branch targetDir dryRun s =
        logger_Printf (VerzeichnisExistiert targetDir) s \<and>
      checkoutRepo_url os url branch targetDir dryRun s =
        logger_Printf (VerzeichnisExistiert targetDir) s) \<and>
   (Stat os (world s) targetDir = Inl err \<longrightarrow>
      checkoutRepo os providerURL repoName branch targetDir dryRun s =
        clone_into os branch (fullURL providerURL repoName) targetDir dryRun s \<and>
      checkoutRepo_url os url branch targetDir dryRun s =
        clone_into os branch url targetDir dryRun s) \<and>
   procs (clone_into os branch src targetDir False s) =
     procs s @ [clone_cmd os branch src targetDir] \<and>
   stdout (clone_into os branch src targetDir True s) =
     stdout s @ [preview (clone_cmd os branch src targetDir)]"
  by (simp add: checkoutRepo_def checkoutRepo_url_def clone_into_def run_def logger_Printf_def
      split: prod.splits option.splits)

theorem stat_check_witness:
  "checkoutRepo (sim_os ([], None) ([], None) []) ''https://example.org/org'' ''teamrepo'' []
     ''teamrepo'' False (sim_state [(''teamrepo'', False)]) =
   \<lparr>world = [(''teamrepo'', False)], procs = [], stdout = [],
    audit = [VerzeichnisExistiert ''teamrepo'']\<rparr> \<and>
   checkoutRepo ((sim_os ([], None) ([], None) [])\<lparr>Stat := \<lambda>w p. Inl ''permission denied''\<rparr>)
     ''https://example.org/org'' ''teamrepo'' [] ''teamrepo'' False (sim_state [(''teamrepo'', True)]) =
   \<lparr>world = [(''teamrepo'', True), (''teamrepo'', True)],
    procs = [\<lparr>Path = ''/usr/bin/git'',
              Args = [''git'', ''clone'', ''https://example.org/org/teamrepo.git'', ''teamrepo''],
              Dir = []\<rparr>],
    stdout = [],
    audit = [ErfolgreichAusgecheckt ''teamrepo'']\<rparr>"
proof -
  let ?os = "sim_os ([], None) ([], None) []"
  let ?os' = "?os\<lparr>Stat := \<lambda>w p. Inl ''permission denied''\<rparr>"
  have h1: "Stat ?os (world (sim_state [(''teamrepo'', False)])) ''teamrepo'' = Inr (FileInfo False)"
    by (simp add: sim_defs)
  have h2: "Stat ?os' (world (sim_state [(''teamrepo'', True)])) ''teamrepo'' = Inl ''permission denied''"
    by simp
  have a: "checkoutRepo ?os ''https://example.org/org'' ''teamrepo'' [] ''teamrepo'' False
      (sim_state [(''teamrepo'', False)]) =
      logger_Printf (VerzeichnisExistiert ''teamrepo'') (sim_state [(''teamrepo'', False)])"
    using stat_check [of ?os "sim_state [(''teamrepo'', False)]" "''teamrepo''" False] h1 by blast
  have b: "checkoutRepo ?os' ''https://example.org/org'' ''teamrepo'' [] ''teamrepo'' False
      (sim_state [(''teamrepo'', True)]) =
      clone_into ?os' [] (fullURL ''https://example.org/org'' ''teamrepo'') ''teamrepo'' False
        (sim_state [(''teamrepo'', True)])"
    using stat_check [of ?os' "sim_state [(''teamrepo'', True)]" "''teamrepo''" _ _ _ _ _ _
        "''permission denied''"] h2 by blast
  show ?thesis unfolding a b
    by (simp add: sim_defs prog_defs)
qed

section \<open>The allowed branches from the flag\<close>

text \<open>
  Claim C9. The value of \<open>-branch\<close> is cut at its commas and at nothing else: joining
  the entries with commas gives the value back, so no entry is trimmed, and
  \<open>"main, develop"\<close> gives the entries \<open>"main"\<close> and \<open>" develop"\<close>. The loop that
  sets \<open>match\<close> finds a branch exactly when it is equal to an entry. Hence adding
  \<open>", name"\<close> to a value adds the entry \<open>" name"\<close> and does not make the branch
  \<open>name\<close> match, and a repository on the branch \<open>develop\<close> is skipped as not allowed
  under \<open>"main, develop"\<close>.
\<close>

theorem allowed_branches_exact:
  "main_allowedBranches ''main, develop'' = [''main'', '' develop''] \<and>
   (branches \<noteq> [] \<longrightarrow> strings_Join (main_allowedBranches branches) '','' = branches) \<and>
   branch_match allowedBranches branch = (branch \<in> set allowedBranches) \<and>
   (pre \<noteq> [] \<and> CHR '','' \<notin> set name \<longrightarrow>
      main_allowedBranches (pre @ '', '' @ name) = main_allowedBranches pre @ [CHR '' '' # name] \<and>
      branch_match (main_allowedBranches (pre @ '', '' @ name)) name =
        branch_match (main_allowedBranches pre) name) \<and>
   (isGitRepo os repo (world s) \<and> getCurrentBranch os repo s = (Inr ''develop'', s1) \<longrightarrow>
      processRepo os repo msg (main_allowedBranches ''main, develop'') dryRun s =
        logger_Printf (BranchNichtErlaubt repo ''develop'') s1)"
proof -
  have 1: "main_allowedBranches ''main, develop'' = [''main'', '' develop'']"
    by (simp add: main_allowedBranches_def)
  have 2: "strings_Join (main_allowedBranches branches) '','' = branches" if "branches \<noteq> []"
    using that strings_Join_Split [of branches "CHR '',''"] by (simp add: main_allowedBranches_def)
  have 3: "main_allowedBranches (pre @ '', '' @ name) = main_allowedBranches pre @ [CHR '' '' # name]"
    if "pre \<noteq> []" "CHR '','' \<notin> set name"
  proof -
    have "CHR '','' \<notin> set (CHR '' '' # name)" using that(2) by simp
    then have "strings_Split (CHR '' '' # name) CHR '','' = [CHR '' '' # name]"
      by (rule strings_Split_no_sep)
    then show ?thesis
      using that(1) strings_Split_append [of pre "CHR '',''" "CHR '' '' # name"]
      by (simp add: main_allowedBranches_def)
  qed
  have 4: "branch_match (main_allowedBranches (pre @ '', '' @ name)) name =
        branch_match (main_allowedBranches pre) name"
    if "pre \<noteq> []" "CHR '','' \<notin> set name"
    using 3 [OF that] by (simp add: branch_match_set)
  have 5: "processRepo os repo msg (main_allowedBranches ''main, develop'') dryRun s =
        logger_Printf (BranchNichtErlaubt repo ''develop'') s1"
    if "isGitRepo os repo (world s)" "getCurrentBranch os repo s = (Inr ''develop'', s1)"
    using processRepo_checked [OF that, of msg "main_allowedBranches ''main, develop''" dryRun]
    unfolding 1 by simp
  show ?thesis using 1 2 3 4 5 branch_match_set [of allowedBranches branch] by blast
qed

theorem allowed_branches_exact_witness:
  "main_allowedBranches ''main,dev, develop'' = [''main'', ''dev'', '' develop''] \<and>
   \<not> branch_match (main_allowedBranches ''main,dev, develop'') ''develop'' \<and>
   strings_Join (main_allowedBranches ''main,dev, develop'') '','' = ''main,dev, develop'' \<and>
   processRepo (sim_os (''develop'' @ nl, None) ('' M f'' @ nl, None) [])
     ''repoA'' ''sync'' (main_allowedBranches ''main, develop'') False
     (sim_state [(''repoA/.git'', True)]) =
   \<lparr>world = [(''repoA/.git'', True)],
    procs = [\<lparr>Path = ''/usr/bin/git'', Args = [''git'', ''rev-parse'', ''--abbrev-ref'', ''HEAD''],
              Dir = ''repoA''\<rparr>],
    stdout = [],
    audit = [BranchNichtErlaubt ''repoA'' ''develop'']\<rparr>"
proof -
  let ?os = "sim_os (''develop'' @ nl, None) ('' M f'' @ nl, None) []"
  let ?w = "[(''repoA/.git'', True)]"
  let ?s1 = "(sim_state ?w)\<lparr>world := ?w, procs := [branch_cmd ?os ''repoA'']\<rparr>"
  have h1: "isGitRepo ?os ''repoA'' (world (sim_state ?w))" by (simp add: sim_defs)
  have h2: "getCurrentBranch ?os ''repoA'' (sim_state ?w) = (Inr ''develop'', ?s1)"
    by (simp add: sim_defs)
  have h3: "''main,dev'' \<noteq> [] \<and> CHR '','' \<notin> set ''develop''" by simp
  have h4: "''main,dev, develop'' \<noteq> []" by simp
  have m: "main_allowedBranches ''main,dev'' = [''main'', ''dev'']"
    by (simp add: main_allowedBranches_def)
  note t = allowed_branches_exact [of "''main,dev, develop''" _ _ "''main,dev''" "''develop''"
      ?os "''repoA''" "sim_state ?w" ?s1 "''sync''" False]
  have a: "main_allowedBranches ''main,dev, develop'' = [''main'', ''dev'', '' develop'']"
    using t h3 m by simp
  have b: "\<not> branch_match (main_allowedBranches ''main,dev, develop'') ''develop''"
    using t h3 m by simp
  have c: "strings_Join (main_allowedBranches ''main,dev, develop'') '','' = ''main,dev, develop''"
    using t h4 by blast
  have d: "processRepo ?os ''repoA'' ''sync'' (main_allowedBranches ''main, develop'') False
      (sim_state ?w) = logger_Printf (BranchNichtErlaubt ''repoA'' ''develop'') ?s1"
    using t h1 h2 by blast
  show ?thesis unfolding d using a b c by (simp add: sim_defs logger_Printf_def)
qed

section \<open>The source and the directory of a clone\<close>

text \<open>
  Claim C6, as stated, at the provider URL \<open>https://example.org/org/\<close> and the line
  \<open>/teamrepo\<close>: only the provider URL is trimmed, so the separator the line starts with
  stays behind the one \<open>checkoutRepo\<close> puts in, and the clone is started from
  \<open>https://example.org/org//teamrepo.git\<close>, with two separators between the two.
\<close>

theorem clone_source_counterexample:
  "fullURL ''https://example.org/org/'' ''/teamrepo'' = ''https://example.org/org//teamrepo.git'' \<and>
   procs (main_checkout (sim_os ([], None) ([], None) []) ''https://example.org/org/'' False
            [''/teamrepo''] (sim_state [])) =
     [\<lparr>Path = ''/usr/bin/git'',
       Args = [''git'', ''clone'', ''https://example.org/org//teamrepo.git'', ''/teamrepo''],
       Dir = []\<rparr>]"
  by (simp add: prog_defs sim_defs)

text \<open>
  Claim C6, amended. With a provider URL, \<open>checkoutRepo\<close> clones from the URL without
  its trailing separators, one separator, the repository name as the line gives it and
  \<open>.git\<close>: \<open>https://example.org/org\<close> and \<open>teamrepo\<close> give
  \<open>https://example.org/org/teamrepo.git\<close>, and the directory is the name. The separators
  at the end of the provider URL are the only ones that are normalised. The variant of the
  program without provider URL clones from the line as it is, into the directory named
  after the last segment of the line, without a \<open>.git\<close> at its end.
\<close>

theorem clone_source:
  "(b = [] \<or> last b \<noteq> CHR ''/'' \<longrightarrow>
      fullURL (b @ replicate n CHR ''/'') repoName = b @ ''/'' @ repoName @ ''.git'') \<and>
   fullURL ''https://example.org/org'' ''teamrepo'' = ''https://example.org/org/teamrepo.git'' \<and>
   (Stat os (world s) targetDir = Inl err \<longrightarrow>
      procs (checkoutRepo os providerURL repoName [] targetDir False s) =
        procs s @ [\<lparr>Path = LookPath os ''git'',
                     Args = [''git'', ''clone'', fullURL providerURL repoName, targetDir],
                     Dir = []\<rparr>] \<and>
      procs (checkoutRepo_url os url [] targetDir False s) =
        procs s @ [\<lparr>Path = LookPath os ''git'',
                     Args = [''git'', ''clone'', url, targetDir],
                     Dir = []\<rparr>]) \<and>
   main_checkout os providerURL dryRun (repoName # lines) s =
     main_checkout os providerURL dryRun lines
       (checkoutRepo os providerURL repoName [] repoName dryRun s) \<and>
   main_checkout_url os dryRun (url # lines) s =
     main_checkout_url os dryRun lines
       (checkoutRepo_url os url [] (main_targetDir_url url) dryRun s) \<and>
   (CHR ''/'' \<notin> set seg \<and> seg \<noteq> [] \<longrightarrow>
      main_targetDir_url (pre @ ''/'' @ seg) = strings_TrimSuffix seg ''.git'' \<and>
      main_targetDir_url seg = strings_TrimSuffix seg ''.git'') \<and>
   strings_TrimSuffix (x @ ''.git'') ''.git'' = x \<and>
   (\<not> strings_HasSuffix seg ''.git'' \<longrightarrow> strings_TrimSuffix seg ''.git'' = seg) \<and>
   main_targetDir_url ''https://example.org/org/teamrepo.git'' = ''teamrepo''"
proof -
  have 1: "fullURL ''https://example.org/org'' ''teamrepo'' = ''https://example.org/org/teamrepo.git''"
    by (simp add: fullURL_def strings_TrimRight_def)
  have 2: "procs (checkoutRepo os providerURL repoName [] targetDir False s) =
        procs s @ [\<lparr>Path = LookPath os ''git'',
                     Args = [''git'', ''clone'', fullURL providerURL repoName, targetDir],
                     Dir = []\<rparr>]"
    if "Stat os (world s) targetDir = Inl err"
    using that
    by (simp add: checkoutRepo_def clone_into_def clone_cmd_def exec_Command_def run_def
        logger_Printf_def split: prod.splits option.splits)
  have 3: "procs (checkoutRepo_url os url [] targetDir False s) =
        procs s @ [\<lparr>Path = LookPath os ''git'',
                     Args = [''git'', ''clone'', url, targetDir],
                     Dir = []\<rparr>]"
    if "Stat os (world s) targetDir = Inl err"
    using that
    by (simp add: checkoutRepo_url_def clone_into_def clone_cmd_def exec_Command_def run_def
        logger_Printf_def split: prod.splits option.splits)
  have 4: "main_targetDir_url (pre @ ''/'' @ seg) = strings_TrimSuffix seg ''.git'' \<and>
      main_targetDir_url seg = strings_TrimSuffix seg ''.git''"
    if "CHR ''/'' \<notin> set seg" "seg \<noteq> []"
    using filepath_Base_segment(1) [OF that, of pre] filepath_Base_segment(2) [OF that]
    by (simp add: main_targetDir_url_def)
  have 5: "main_targetDir_url ''https://example.org/org/teamrepo.git'' = ''teamrepo''"
    by (simp add: main_targetDir_url_def filepath_Base_def strings_TrimSuffix_def
        strings_HasSuffix_def)
  show ?thesis
    using fullURL_trim [of b n repoName] 1 2 3 4 5
      strings_TrimSuffix_cases(1) [of x "''.git''"]
      strings_TrimSuffix_cases(2) [of seg "''.git''"]
    by simp
qed

theorem clone_source_witness:
  "fullURL ''https://example.org/org//'' ''teamrepo'' = ''https://example.org/org/teamrepo.git'' \<and>
   checkoutRepo (sim_os ([], None) ([], None) []) ''https://example.org/org'' ''teamrepo'' []
     ''teamrepo'' False (sim_state []) =
   \<lparr>world = [(''teamrepo'', True)],
    procs = [\<lparr>Path = ''/usr/bin/git'',
              Args = [''git'', ''clone'', ''https://example.org/org/teamrepo.git'', ''teamrepo''],
              Dir = []\<rparr>],
    stdout = [],
    audit = [ErfolgreichAusgecheckt ''teamrepo'']\<rparr> \<and>
   procs (main_checkout_url (sim_os ([], None) ([], None) []) False
            [''https://example.org/org/teamrepo.git''] (sim_state [])) =
     [\<lparr>Path = ''/usr/bin/git'',
       Args = [''git'', ''clone'', ''https://example.org/org/teamrepo.git'', ''teamrepo''],
       Dir = []\<rparr>] \<and>
   main_targetDir_url ''git@example.org:org/tools'' = ''tools''"
proof -
  let ?os = "sim_os ([], None) ([], None) []"
  note t = clone_source [of "''https://example.org/org''" 2 "''teamrepo''" ?os "sim_state []"
      "''teamrepo''" "''no such file or directory''" "''https://example.org/org''"
      "''https://example.org/org/teamrepo.git''" False "[]" "''tools''" "''git@example.org:org''"
      "[]"]
  have h1: "''https://example.org/org'' = [] \<or> last ''https://example.org/org'' \<noteq> CHR ''/''"
    by simp
  have h2: "Stat ?os (world (sim_state [])) ''teamrepo'' = Inl ''no such file or directory''"
    by (simp add: sim_defs)
  have h3: "CHR ''/'' \<notin> set ''tools'' \<and> ''tools'' \<noteq> []" by simp
  have h4: "\<not> strings_HasSuffix ''tools'' ''.git''" by (simp add: strings_HasSuffix_def)
  have a: "fullURL ''https://example.org/org//'' ''teamrepo'' = ''https://example.org/org/teamrepo.git''"
    using t h1 by (simp add: numeral_2_eq_2)
  have b: "procs (checkoutRepo ?os ''https://example.org/org'' ''teamrepo'' [] ''teamrepo'' False
      (sim_state [])) =
     [\<lparr>Path = ''/usr/bin/git'',
       Args = [''git'', ''clone'', ''https://example.org/org/teamrepo.git'', ''teamrepo''],
       Dir = []\<rparr>]"
    using t h2 by (simp add: sim_defs)
  have c: "main_targetDir_url ''git@example.org:org/tools'' = ''tools''"
    using t h3 h4 by simp
  have d: "main_targetDir_url ''https://example.org/org/teamrepo.git'' = ''teamrepo''"
    using t by blast
  have e: "procs (main_checkout_url ?os False [''https://example.org/org/teamrepo.git'']
      (sim_state [])) =
     [\<lparr>Path = ''/usr/bin/git'',
       Args = [''git'', ''clone'', ''https://example.org/org/teamrepo.git'', ''teamrepo''],
       Dir = []\<rparr>]"
    unfolding main_checkout_url.simps d by (simp add: sim_defs prog_defs)
  have f: "checkoutRepo ?os ''https://example.org/org'' ''teamrepo'' [] ''teamrepo'' False
      (sim_state []) =
   \<lparr>world = [(''teamrepo'', True)],
    procs = [\<lparr>Path = ''/usr/bin/git'',
              Args = [''git'', ''clone'', ''https://example.org/org/teamrepo.git'', ''teamrepo''],
              Dir = []\<rparr>],
    stdout = [],
    audit = [ErfolgreichAusgecheckt ''teamrepo'']\<rparr>"
    by (simp add: sim_defs prog_defs)
  show ?thesis using a f e c by blast
qed

section \<open>The bound on running jobs\<close>

text \<open>
  Claim C8. In every state the loop and its goroutines can reach, for every list of
  targets and every capacity: each goroutine that has been started and has not yet taken
  its element back from \<open>sem\<close> accounts for one element of the channel, the channel
  holds at most \<open>parallel\<close> elements, and so at most \<open>parallel\<close> jobs are running. The
  element is sent before the \<open>go\<close> statement and received after the job has returned.
\<close>

theorem gate_bound:
  "reachable parallel lines s \<Longrightarrow>
   length (working s) + leaving s + (if mpc s = AtGo then 1 else 0) = sem s \<and>
   sem s \<le> parallel \<and> length (working s) \<le> parallel"
  using gate_invariant [of parallel lines s] by auto

theorem gate_bound_witness:
  "reachable 1 [''repoA'', ''repoB'']
     \<lparr>todo = [''repoB''], mpc = AtAdd, sem = 1, wg = 1, working = [''repoA''], leaving = 0\<rparr> \<and>
   length (working \<lparr>todo = [''repoB''], mpc = AtAdd, sem = 1, wg = 1, working = [''repoA''],
                    leaving = 0\<rparr>) +
     leaving \<lparr>todo = [''repoB''], mpc = AtAdd, sem = 1, wg = 1, working = [''repoA''],
              leaving = 0\<rparr> +
     (if mpc \<lparr>todo = [''repoB''], mpc = AtAdd, sem = 1, wg = 1, working = [''repoA''],
              leaving = 0\<rparr> = AtGo then 1 else 0) =
     sem \<lparr>todo = [''repoB''], mpc = AtAdd, sem = 1, wg = 1, working = [''repoA''], leaving = 0\<rparr> \<and>
   sem \<lparr>todo = [''repoB''], mpc = AtAdd, sem = 1, wg = 1, working = [''repoA''], leaving = 0\<rparr> \<le> 1 \<and>
   length (working \<lparr>todo = [''repoB''], mpc = AtAdd, sem = 1, wg = 1, working = [''repoA''],
                    leaving = 0\<rparr>) \<le> 1"
proof -
  let ?L = "[''repoA'', ''repoB'']"
  have r0: "reachable 1 ?L
     \<lparr>todo = ?L, mpc = AtAdd, sem = 0, wg = 0, working = [], leaving = 0\<rparr>"
    using reachable.start [of 1 ?L] by (simp add: sched_init_def)
  have r1: "reachable 1 ?L
     \<lparr>todo = ?L, mpc = AtSend, sem = 0, wg = 1, working = [], leaving = 0\<rparr>"
    using next_step [OF r0 wg_Add] by simp
  have r2: "reachable 1 ?L
     \<lparr>todo = ?L, mpc = AtGo, sem = 1, wg = 1, working = [], leaving = 0\<rparr>"
    using next_step [OF r1 sem_send] by simp
  have r3: "reachable 1 ?L
     \<lparr>todo = [''repoB''], mpc = AtAdd, sem = 1, wg = 1, working = [''repoA''], leaving = 0\<rparr>"
    using next_step [OF r2 go [of _ "''repoA''" "[''repoB'']"]] by simp
  show ?thesis by (rule conjI [OF r3 gate_bound [OF r3]])
qed

end
